theory Spec2Isabelle
  imports Main
begin

section \<open>Turnstile: a one-connection-at-a-time gate over a reopenable stream\<close>

text \<open>
  The Go package adapts an \<^verbatim>\<open>io.ReadWriteCloser\<close> into a \<^verbatim>\<open>net.Listener\<close>
  (\<^verbatim>\<open>serve.go\<close>) and a dialer (\<^verbatim>\<open>client.go\<close>); \<^verbatim>\<open>conn.go\<close> holds the connection
  wrapper. The methods run on several goroutines, block on channels and share the fields
  \<^verbatim>\<open>closed\<close> and \<^verbatim>\<open>closedCh\<close> under a mutex. The model is an interleaving
  semantics: every call is a thread with a program counter, and one step of a thread is one
  critical section (\<^verbatim>\<open>mu.Lock()\<close> to \<^verbatim>\<open>mu.Unlock()\<close>), one channel operation or one call
  of external code (\<^verbatim>\<open>open()\<close>, the stream's \<^verbatim>\<open>Close()\<close>, \<^verbatim>\<open>time.Sleep\<close>), together
  with the thread-local code that follows it up to the next such point. What the environment
  decides (the result of \<^verbatim>\<open>open()\<close>, which ready case a \<^verbatim>\<open>select\<close> takes, when a context
  is cancelled) is a parameter of the step.
\<close>

subsection \<open>Values\<close>

type_synonym chan = nat       \<comment> \<open>identity of a \<^verbatim>\<open>chan struct{}\<close> made by \<^verbatim>\<open>make\<close>\<close>
type_synonym stream = nat     \<comment> \<open>identity of an \<^verbatim>\<open>io.ReadWriteCloser\<close> returned by \<^verbatim>\<open>open()\<close>\<close>
type_synonym tid = nat        \<comment> \<open>index of a call in the thread table\<close>
type_synonym duration = int   \<comment> \<open>\<^verbatim>\<open>time.Duration\<close>: nanoseconds\<close>
type_synonym time = int       \<comment> \<open>\<^verbatim>\<open>time.Time\<close>: an instant, any integer\<close>

definition Millisecond :: duration where
  "Millisecond = 1000000"

definition Second :: duration where
  "Second = 1000 * Millisecond"

text \<open>\<^verbatim>\<open>ctx.Err()\<close> of a done context.\<close>

datatype ctxerr = Canceled | DeadlineExceeded

text \<open>
  Go \<^verbatim>\<open>error\<close> values, by origin: \<^verbatim>\<open>net.ErrClosed\<close>, the context's error, an error
  returned by \<^verbatim>\<open>open()\<close>, an error returned by a method of the stream.
\<close>

datatype error = ErrClosed | CtxErr ctxerr | OpenErr nat | StreamErr nat

text \<open>
  \<^verbatim>\<open>onClose\<close> of a wrapper is \<^verbatim>\<open>nil\<close> or the closure that \<^verbatim>\<open>Accept\<close> and
  \<^verbatim>\<open>DialContext\<close> build (serve.go 97-104, client.go 114-121); the closure captures the
  gate, not the channel.
\<close>

datatype callback = Release

record rwConn =
  rwc :: stream               \<comment> \<open>the embedded \<^verbatim>\<open>io.ReadWriteCloser\<close>\<close>
  local :: string
  remote :: string
  onClose :: "callback option"

text \<open>What a call returns.\<close>

datatype retval =
    Ret_Conn rwConn           \<comment> \<open>\<^verbatim>\<open>return rc, nil\<close>\<close>
  | Ret_Err error             \<comment> \<open>\<^verbatim>\<open>return nil, err\<close> or \<^verbatim>\<open>return err\<close>\<close>
  | Ret_Nil                   \<comment> \<open>\<^verbatim>\<open>return nil\<close> of a method returning only an error\<close>
  | Ret_IO nat "nat option"   \<comment> \<open>\<^verbatim>\<open>(n, err)\<close> of \<^verbatim>\<open>Read\<close> and \<^verbatim>\<open>Write\<close>\<close>

text \<open>The calls of external code and the channel operations a thread has made, in order.\<close>

datatype event =
    Ev_open_ok stream
  | Ev_open_fail nat
  | Ev_sleep duration
  | Ev_close_stream stream
  | Ev_close_chan chan
  | Ev_read stream
  | Ev_write stream

subsection \<open>The gate and the channels\<close>

text \<open>
  The fields of \<^verbatim>\<open>reopenListener\<close> and of \<^verbatim>\<open>reopenDialer\<close> (the two structs are the
  same; \<^verbatim>\<open>open\<close> is external and \<^verbatim>\<open>mu\<close> is the atomicity of a step), and the channels
  made so far: \<open>made\<close> counts them, \<open>chclosed\<close> holds the closed ones.
\<close>

record gate =
  addr :: string
  closed :: bool
  closedCh :: "chan option"
  made :: nat
  chclosed :: "chan set"

datatype fault =
    Blocked                   \<comment> \<open>the operation cannot proceed in this state\<close>
  | NoStep                    \<comment> \<open>the action names no transition of the thread\<close>
  | Panic                     \<comment> \<open>\<^verbatim>\<open>panic: close of closed channel\<close>\<close>

definition make_chan :: "gate \<Rightarrow> chan \<times> gate" where
  "make_chan g = (made g, g\<lparr>made := Suc (made g)\<rparr>)"

definition close_chan :: "chan \<Rightarrow> gate \<Rightarrow> fault + gate" where
  "close_chan ch g =
     (if ch \<in> chclosed g then Inl Panic else Inr (g\<lparr>chclosed := insert ch (chclosed g)\<rparr>))"

definition NewGate :: "string \<Rightarrow> gate" where
  "NewGate name = \<lparr>addr = name, closed = False, closedCh = None, made = 0, chclosed = {}\<rparr>"

subsection \<open>Program counters\<close>

datatype apc =
    A_entry                   \<comment> \<open>serve.go 61\<close>
  | A_wait chan               \<comment> \<open>serve.go 69: \<^verbatim>\<open><-ch\<close>\<close>
  | A_relock                  \<comment> \<open>serve.go 70\<close>
  | A_open duration           \<comment> \<open>serve.go 82: \<^verbatim>\<open>l.open()\<close>\<close>
  | A_install stream          \<comment> \<open>serve.go 83\<close>
  | A_failed duration         \<comment> \<open>serve.go 108\<close>
  | A_sleep duration          \<comment> \<open>serve.go 111\<close>

datatype dpc =
    D_entry                   \<comment> \<open>client.go 63\<close>
  | D_lock                    \<comment> \<open>client.go 69\<close>
  | D_wait chan               \<comment> \<open>client.go 77: \<^verbatim>\<open>select\<close>\<close>
  | D_ctx duration            \<comment> \<open>client.go 93\<close>
  | D_open duration           \<comment> \<open>client.go 97: \<^verbatim>\<open>d.open()\<close>\<close>
  | D_install stream          \<comment> \<open>client.go 99\<close>
  | D_failed duration         \<comment> \<open>client.go 127\<close>
  | D_sleep duration          \<comment> \<open>client.go 135: \<^verbatim>\<open>select\<close>\<close>

datatype cpc =
    C_entry                   \<comment> \<open>serve.go 45, client.go 43\<close>
  | C_select chan             \<comment> \<open>serve.go 51, client.go 50\<close>
  | C_close chan              \<comment> \<open>serve.go 54, client.go 53\<close>

datatype wpc =
    W_entry                   \<comment> \<open>conn.go 36\<close>
  | W_stream                  \<comment> \<open>conn.go 39\<close>

datatype code =
    In_Accept apc
  | In_Dial dpc
  | In_Close cpc
  | In_ConnClose wpc
  | In_Conn                   \<comment> \<open>entry of a one-step method of the wrapper\<close>
  | Done retval

text \<open>What the environment decides at a step.\<close>

datatype env =
    Tau
  | Open_ok stream            \<comment> \<open>\<^verbatim>\<open>open()\<close> returns this stream and a nil error\<close>
  | Open_fail nat             \<comment> \<open>\<^verbatim>\<open>open()\<close> returns this error\<close>
  | Pick_ch                   \<comment> \<open>\<^verbatim>\<open>select\<close> takes \<^verbatim>\<open>case <-ch\<close>\<close>
  | Pick_ctx                  \<comment> \<open>\<^verbatim>\<open>select\<close> takes \<^verbatim>\<open>case <-ctx.Done()\<close>\<close>
  | Pick_timer                \<comment> \<open>\<^verbatim>\<open>select\<close> takes \<^verbatim>\<open>case <-time.After(backoff)\<close>\<close>
  | Close_ret "nat option"    \<comment> \<open>the stream's \<^verbatim>\<open>Close()\<close> returns this\<close>
  | IO_ret nat "nat option"   \<comment> \<open>the stream's \<^verbatim>\<open>Read\<close> or \<^verbatim>\<open>Write\<close> returns this\<close>

type_synonym outcome = "fault + (code \<times> event list \<times> gate)"

subsection \<open>\<^verbatim>\<open>reopenListener.Accept\<close>\<close>

definition next_backoff :: "duration \<Rightarrow> duration" where
  \<comment> \<open>\<^verbatim>\<open>if backoff < 2*time.Second { backoff *= 2 }\<close>\<close>
  "next_backoff b = (if b < 2 * Second then b * 2 else b)"

definition install :: "stream \<Rightarrow> string \<Rightarrow> gate \<Rightarrow> outcome" where
  \<comment> \<open>serve.go 83-106, client.go 99-123; the second argument is the wrapper's \<^verbatim>\<open>remote\<close>.
      On a closed gate the step includes \<^verbatim>\<open>c.Close()\<close> on the stream no other thread holds;
      its result is dropped, as in the source.\<close>
  "install c peer g =
     (if closed g then Inr (Done (Ret_Err ErrClosed), [Ev_close_stream c], g)
      else let (ch, g') = make_chan g in
        Inr (Done (Ret_Conn \<lparr>rwc = c, local = addr g, remote = peer, onClose = Some Release\<rparr>),
             [], g'\<lparr>closedCh := Some ch\<rparr>))"

definition on_Tau :: "env \<Rightarrow> outcome \<Rightarrow> outcome" where
  \<comment> \<open>a step at which the environment decides nothing\<close>
  "on_Tau e r = (case e of Tau \<Rightarrow> r | _ \<Rightarrow> Inl NoStep)"

fun Accept :: "env \<Rightarrow> apc \<Rightarrow> gate \<Rightarrow> outcome" where
  "Accept e A_entry g = on_Tau e
     (if closed g then Inr (Done (Ret_Err ErrClosed), [], g)
      else case closedCh g of
          Some ch \<Rightarrow> Inr (In_Accept (A_wait ch), [], g)
        | None \<Rightarrow> Inr (In_Accept (A_open (100 * Millisecond)), [], g))"
| "Accept e (A_wait ch) g = on_Tau e
     (if ch \<in> chclosed g then Inr (In_Accept A_relock, [], g) else Inl Blocked)"
| "Accept e A_relock g = on_Tau e
     (if closed g then Inr (Done (Ret_Err ErrClosed), [], g)
      else Inr (In_Accept (A_open (100 * Millisecond)), [], g))"
| "Accept e (A_open b) g =
     (case e of
        Open_ok c \<Rightarrow> Inr (In_Accept (A_install c), [Ev_open_ok c], g)
      | Open_fail x \<Rightarrow> Inr (In_Accept (A_failed b), [Ev_open_fail x], g)
      | _ \<Rightarrow> Inl NoStep)"
| "Accept e (A_install c) g = on_Tau e (install c ''peer'' g)"
| "Accept e (A_failed b) g = on_Tau e
     (if closed g then Inr (Done (Ret_Err ErrClosed), [], g)
      else Inr (In_Accept (A_sleep b), [], g))"
| "Accept e (A_sleep b) g = on_Tau e
     (Inr (In_Accept (A_open (next_backoff b)), [Ev_sleep b], g))"

subsection \<open>\<^verbatim>\<open>reopenDialer.DialContext\<close>\<close>

text \<open>
  The first argument is the state of the call's context (\<open>None\<close>: not done), the second
  the \<^verbatim>\<open>address\<close> argument. \<^verbatim>\<open>Dial\<close> is \<^verbatim>\<open>DialContext\<close> with
  \<^verbatim>\<open>context.Background()\<close>: a context that is never done.
\<close>

fun DialContext :: "ctxerr option \<Rightarrow> string \<Rightarrow> env \<Rightarrow> dpc \<Rightarrow> gate \<Rightarrow> outcome" where
  "DialContext ctx a e D_entry g = on_Tau e
     (case ctx of
        Some x \<Rightarrow> Inr (Done (Ret_Err (CtxErr x)), [], g)
      | None \<Rightarrow> Inr (In_Dial D_lock, [], g))"
| "DialContext ctx a e D_lock g = on_Tau e
     (if closed g then Inr (Done (Ret_Err ErrClosed), [], g)
      else case closedCh g of
          Some ch \<Rightarrow> Inr (In_Dial (D_wait ch), [], g)
        | None \<Rightarrow> Inr (In_Dial (D_ctx (100 * Millisecond)), [], g))"
| "DialContext ctx a e (D_wait ch) g =
     (case e of
        Pick_ch \<Rightarrow> (if ch \<in> chclosed g then Inr (In_Dial D_lock, [], g) else Inl Blocked)
      | Pick_ctx \<Rightarrow>
          (case ctx of
             Some x \<Rightarrow> Inr (Done (Ret_Err (CtxErr x)), [], g)
           | None \<Rightarrow> Inl Blocked)
      | _ \<Rightarrow> Inl NoStep)"
| "DialContext ctx a e (D_ctx b) g = on_Tau e
     (case ctx of
        Some x \<Rightarrow> Inr (Done (Ret_Err (CtxErr x)), [], g)
      | None \<Rightarrow> Inr (In_Dial (D_open b), [], g))"
| "DialContext ctx a e (D_open b) g =
     (case e of
        Open_ok c \<Rightarrow> Inr (In_Dial (D_install c), [Ev_open_ok c], g)
      | Open_fail x \<Rightarrow> Inr (In_Dial (D_failed b), [Ev_open_fail x], g)
      | _ \<Rightarrow> Inl NoStep)"
| "DialContext ctx a e (D_install c) g = on_Tau e (install c a g)"
| "DialContext ctx a e (D_failed b) g = on_Tau e
     (if closed g then Inr (Done (Ret_Err ErrClosed), [], g)
      else Inr (In_Dial (D_sleep b), [], g))"
| "DialContext ctx a e (D_sleep b) g =
     (case e of
        Pick_ctx \<Rightarrow>
          (case ctx of
             Some x \<Rightarrow> Inr (Done (Ret_Err (CtxErr x)), [], g)
           | None \<Rightarrow> Inl Blocked)
      | Pick_timer \<Rightarrow> Inr (In_Dial (D_ctx (next_backoff b)), [Ev_sleep b], g)
      | _ \<Rightarrow> Inl NoStep)"

subsection \<open>\<^verbatim>\<open>Close\<close> of the listener and of the dialer\<close>

fun Close :: "env \<Rightarrow> cpc \<Rightarrow> gate \<Rightarrow> outcome" where
  "Close e C_entry g = on_Tau e
     (case closedCh g of
        None \<Rightarrow> Inr (Done Ret_Nil, [], g\<lparr>closed := True\<rparr>)
      | Some ch \<Rightarrow> Inr (In_Close (C_select ch), [], g\<lparr>closed := True\<rparr>))"
| "Close e (C_select ch) g = on_Tau e
     (if ch \<in> chclosed g then Inr (Done Ret_Nil, [], g)
      else Inr (In_Close (C_close ch), [], g))"
| "Close e (C_close ch) g = on_Tau e
     (case close_chan ch g of
        Inl f \<Rightarrow> Inl f
      | Inr g' \<Rightarrow> Inr (Done Ret_Nil, [Ev_close_chan ch], g'))"

subsection \<open>The connection wrapper\<close>

definition run_onClose :: "gate \<Rightarrow> fault + (event list \<times> gate)" where
  \<comment> \<open>the closure, serve.go 97-104 and client.go 114-121\<close>
  "run_onClose g =
     (case closedCh g of
        None \<Rightarrow> Inr ([], g)
      | Some ch \<Rightarrow>
          (case close_chan ch g of
             Inl f \<Rightarrow> Inl f
           | Inr g' \<Rightarrow> Inr ([Ev_close_chan ch], g'\<lparr>closedCh := None\<rparr>)))"

fun rwConn_Close :: "rwConn \<Rightarrow> env \<Rightarrow> wpc \<Rightarrow> gate \<Rightarrow> outcome" where
  "rwConn_Close w e W_entry g = on_Tau e
     (case onClose w of
        None \<Rightarrow> Inr (In_ConnClose W_stream, [], g)
      | Some Release \<Rightarrow>
          (case run_onClose g of
             Inl f \<Rightarrow> Inl f
           | Inr (evs, g') \<Rightarrow> Inr (In_ConnClose W_stream, evs, g')))"
| "rwConn_Close w e W_stream g =
     (case e of
        Close_ret r \<Rightarrow>
          Inr (Done (case r of None \<Rightarrow> Ret_Nil | Some x \<Rightarrow> Ret_Err (StreamErr x)),
               [Ev_close_stream (rwc w)], g)
      | _ \<Rightarrow> Inl NoStep)"

definition SetDeadline :: "rwConn \<Rightarrow> time \<Rightarrow> gate \<Rightarrow> outcome" where
  "SetDeadline w t g = Inr (Done Ret_Nil, [], g)"

definition SetReadDeadline :: "rwConn \<Rightarrow> time \<Rightarrow> gate \<Rightarrow> outcome" where
  "SetReadDeadline w t g = Inr (Done Ret_Nil, [], g)"

definition SetWriteDeadline :: "rwConn \<Rightarrow> time \<Rightarrow> gate \<Rightarrow> outcome" where
  "SetWriteDeadline w t g = Inr (Done Ret_Nil, [], g)"

text \<open>
  \<^verbatim>\<open>Read\<close> and \<^verbatim>\<open>Write\<close> are promoted from the embedded stream: the wrapper returns
  what the stream returns.
\<close>

definition rwConn_Read :: "rwConn \<Rightarrow> env \<Rightarrow> gate \<Rightarrow> outcome" where
  "rwConn_Read w e g =
     (case e of IO_ret n x \<Rightarrow> Inr (Done (Ret_IO n x), [Ev_read (rwc w)], g) | _ \<Rightarrow> Inl NoStep)"

definition rwConn_Write :: "rwConn \<Rightarrow> env \<Rightarrow> gate \<Rightarrow> outcome" where
  "rwConn_Write w e g =
     (case e of IO_ret n x \<Rightarrow> Inr (Done (Ret_IO n x), [Ev_write (rwc w)], g) | _ \<Rightarrow> Inl NoStep)"

subsection \<open>Threads and the interleaving\<close>

datatype call =
    Call_Accept
  | Call_DialContext string string      \<comment> \<open>\<^verbatim>\<open>network\<close>, \<^verbatim>\<open>address\<close>\<close>
  | Call_Close
  | Call_ConnClose rwConn
  | Call_SetDeadline rwConn time
  | Call_SetReadDeadline rwConn time
  | Call_SetWriteDeadline rwConn time
  | Call_Read rwConn
  | Call_Write rwConn

fun start :: "call \<Rightarrow> code" where
  "start Call_Accept = In_Accept A_entry"
| "start (Call_DialContext n a) = In_Dial D_entry"
| "start Call_Close = In_Close C_entry"
| "start (Call_ConnClose w) = In_ConnClose W_entry"
| "start _ = In_Conn"

record thread =
  tcall :: call
  tcode :: code
  tctx :: "ctxerr option"     \<comment> \<open>the call's context: \<open>None\<close> until it is done\<close>
  tlog :: "event list"

fun thread_step :: "env \<Rightarrow> call \<Rightarrow> code \<Rightarrow> ctxerr option \<Rightarrow> gate \<Rightarrow> outcome" where
  "thread_step e c (In_Accept p) ctx g =
     (case c of Call_Accept \<Rightarrow> Accept e p g | _ \<Rightarrow> Inl NoStep)"
| "thread_step e c (In_Dial p) ctx g =
     (case c of Call_DialContext n a \<Rightarrow> DialContext ctx a e p g | _ \<Rightarrow> Inl NoStep)"
| "thread_step e c (In_Close p) ctx g =
     (case c of Call_Close \<Rightarrow> Close e p g | _ \<Rightarrow> Inl NoStep)"
| "thread_step e c (In_ConnClose p) ctx g =
     (case c of Call_ConnClose w \<Rightarrow> rwConn_Close w e p g | _ \<Rightarrow> Inl NoStep)"
| "thread_step e c In_Conn ctx g =
     (case c of
        Call_SetDeadline w t \<Rightarrow> on_Tau e (SetDeadline w t g)
      | Call_SetReadDeadline w t \<Rightarrow> on_Tau e (SetReadDeadline w t g)
      | Call_SetWriteDeadline w t \<Rightarrow> on_Tau e (SetWriteDeadline w t g)
      | Call_Read w \<Rightarrow> rwConn_Read w e g
      | Call_Write w \<Rightarrow> rwConn_Write w e g
      | _ \<Rightarrow> Inl NoStep)"
| "thread_step e c (Done r) ctx g = Inl NoStep"

record sys =
  shared :: gate
  threads :: "thread list"

datatype action =
    Spawn call "ctxerr option"          \<comment> \<open>a goroutine makes the call, with this context\<close>
  | Cancel tid ctxerr                   \<comment> \<open>the context of the call becomes done\<close>
  | Step tid env                        \<comment> \<open>the call takes its next step\<close>

definition advance :: "thread \<Rightarrow> code \<Rightarrow> event list \<Rightarrow> thread" where
  "advance th c evs = th\<lparr>tcode := c, tlog := tlog th @ evs\<rparr>"

definition cancel :: "ctxerr \<Rightarrow> thread \<Rightarrow> thread" where
  "cancel e th = (case tctx th of None \<Rightarrow> th\<lparr>tctx := Some e\<rparr> | Some e' \<Rightarrow> th)"

definition moved :: "tid \<Rightarrow> code \<Rightarrow> event list \<Rightarrow> sys \<Rightarrow> sys" where
  \<comment> \<open>thread \<open>t\<close> is now at \<open>c\<close> and has made the events \<open>evs\<close>\<close>
  "moved t c evs s = s\<lparr>threads := (threads s)[t := advance (threads s ! t) c evs]\<rparr>"

fun step :: "action \<Rightarrow> sys \<Rightarrow> fault + sys" where
  "step (Spawn c ctx) s =
     Inr (s\<lparr>threads := threads s @ [\<lparr>tcall = c, tcode = start c, tctx = ctx, tlog = []\<rparr>]\<rparr>)"
| "step (Cancel t e) s =
     (if t < length (threads s)
      then Inr (s\<lparr>threads := (threads s)[t := cancel e (threads s ! t)]\<rparr>)
      else Inl NoStep)"
| "step (Step t e) s =
     (if t < length (threads s)
      then (let th = threads s ! t in
            case thread_step e (tcall th) (tcode th) (tctx th) (shared s) of
              Inl f \<Rightarrow> Inl f
            | Inr (c, evs, g') \<Rightarrow> Inr (moved t c evs (s\<lparr>shared := g'\<rparr>)))
      else Inl NoStep)"

fun run :: "action list \<Rightarrow> sys \<Rightarrow> fault + sys" where
  "run [] s = Inr s"
| "run (a # as) s = (case step a s of Inl f \<Rightarrow> Inl f | Inr s' \<Rightarrow> run as s')"

definition NewReopenListener :: "string \<Rightarrow> sys" where
  "NewReopenListener name = \<lparr>shared = NewGate name, threads = []\<rparr>"

definition NewReopenDialer :: "string \<Rightarrow> sys" where
  "NewReopenDialer name = \<lparr>shared = NewGate name, threads = []\<rparr>"

subsection \<open>Observing a state\<close>

definition thread_at :: "sys \<Rightarrow> tid \<Rightarrow> call \<Rightarrow> code \<Rightarrow> bool" where
  \<comment> \<open>thread \<open>t\<close> exists, runs the call \<open>c\<close> and stands at \<open>p\<close>\<close>
  "thread_at s t c p \<longleftrightarrow>
     t < length (threads s) \<and> tcall (threads s ! t) = c \<and> tcode (threads s ! t) = p"

subsection \<open>Concrete states\<close>

definition conn7 :: rwConn where
  "conn7 = \<lparr>rwc = 7, local = ''tty'', remote = ''peer'', onClose = Some Release\<rparr>"

definition closed_dialer :: sys where
  "closed_dialer = \<lparr>shared = (NewGate ''tty'')\<lparr>closed := True\<rparr>,
     threads = [\<lparr>tcall = Call_DialContext ''serial'' ''peer'', tcode = In_Dial D_entry,
                 tctx = Some Canceled, tlog = []\<rparr>]\<rparr>"

definition closed_listener_installing :: sys where
  "closed_listener_installing = \<lparr>shared = (NewGate ''tty'')\<lparr>closed := True\<rparr>,
     threads = [\<lparr>tcall = Call_Accept, tcode = In_Accept (A_install 7), tctx = None,
                 tlog = [Ev_open_ok 7]\<rparr>]\<rparr>"

definition dialer_installing :: sys where
  "dialer_installing = \<lparr>shared = NewGate ''tty'',
     threads = [\<lparr>tcall = Call_DialContext ''serial'' ''host'', tcode = In_Dial (D_install 7),
                 tctx = None, tlog = [Ev_open_ok 7]\<rparr>]\<rparr>"

definition conn_in_use :: sys where
  "conn_in_use = \<lparr>shared = (NewGate ''tty'')\<lparr>made := 1, closedCh := Some 0\<rparr>,
     threads = [\<lparr>tcall = Call_SetReadDeadline conn7 (- 5), tcode = In_Conn, tctx = None,
                 tlog = []\<rparr>,
                \<lparr>tcall = Call_Read conn7, tcode = In_Conn, tctx = None, tlog = []\<rparr>,
                \<lparr>tcall = Call_Write conn7, tcode = In_Conn, tctx = None, tlog = []\<rparr>]\<rparr>"

subsection \<open>Calls that run without interruption\<close>

fun is_Done :: "code \<Rightarrow> bool" where
  "is_Done (Done r) = True"
| "is_Done _ = False"

text \<open>
  \<open>solo k t\<close> lets thread \<open>t\<close> alone take steps, at most \<open>k\<close>, until its call has
  returned. \<open>call_Close\<close> is one call of \<^verbatim>\<open>Close()\<close> on the gate by a goroutine of its
  own that no other goroutine interrupts (the method has three steps at most);
  \<open>calls_Close k\<close> is \<open>k\<close> such calls one after the other.
\<close>

fun solo :: "nat \<Rightarrow> tid \<Rightarrow> sys \<Rightarrow> fault + sys" where
  "solo 0 t s = Inr s"
| "solo (Suc k) t s =
     (if t < length (threads s) \<and> is_Done (tcode (threads s ! t)) then Inr s
      else case step (Step t Tau) s of Inl f \<Rightarrow> Inl f | Inr s' \<Rightarrow> solo k t s')"

definition call_Close :: "sys \<Rightarrow> fault + sys" where
  "call_Close s =
     (case step (Spawn Call_Close None) s of
        Inl f \<Rightarrow> Inl f
      | Inr s' \<Rightarrow> solo 3 (length (threads s)) s')"

fun calls_Close :: "nat \<Rightarrow> sys \<Rightarrow> fault + sys" where
  "calls_Close 0 s = Inr s"
| "calls_Close (Suc k) s =
     (case call_Close s of Inl f \<Rightarrow> Inl f | Inr s' \<Rightarrow> calls_Close k s')"

subsection \<open>The backoff of the retry loop\<close>

text \<open>
  The value of the local variable \<^verbatim>\<open>backoff\<close> after \<open>i\<close> failed attempts
  (serve.go 80 and 112-114, client.go 91 and 140-142), and what a log says about the loop:
  the sleeps a call has made and the number of its failed \<^verbatim>\<open>open()\<close> calls.
\<close>

primrec backoff_nth :: "nat \<Rightarrow> duration" where
  "backoff_nth 0 = 100 * Millisecond"
| "backoff_nth (Suc i) = next_backoff (backoff_nth i)"

primrec sleeps :: "event list \<Rightarrow> duration list" where
  "sleeps [] = []"
| "sleeps (e # l) = (case e of Ev_sleep d \<Rightarrow> d # sleeps l | _ \<Rightarrow> sleeps l)"

primrec fails :: "event list \<Rightarrow> nat" where
  "fails [] = 0"
| "fails (e # l) = (case e of Ev_open_fail x \<Rightarrow> Suc (fails l) | _ \<Rightarrow> fails l)"

text \<open>
  The relation between the program counter of a call and its log that the retry loop
  keeps: the sleeps made so far are the first values of \<^verbatim>\<open>backoff\<close>, in order, and
  \<^verbatim>\<open>backoff\<close> holds the next one.
\<close>

definition in_loop :: "duration \<Rightarrow> nat \<Rightarrow> event list \<Rightarrow> bool" where
  "in_loop b k l \<longleftrightarrow> b = backoff_nth (length (sleeps l)) \<and> fails l = k + length (sleeps l)"

definition loop_inv :: "code \<Rightarrow> event list \<Rightarrow> bool" where
  "loop_inv c l \<longleftrightarrow>
     sleeps l = map backoff_nth [0..<length (sleeps l)] \<and>
     (case c of
        In_Accept p \<Rightarrow>
          (case p of
             A_open b \<Rightarrow> in_loop b 0 l
           | A_failed b \<Rightarrow> in_loop b 1 l
           | A_sleep b \<Rightarrow> in_loop b 1 l
           | A_install c \<Rightarrow> fails l = length (sleeps l)
           | _ \<Rightarrow> l = [])
      | In_Dial p \<Rightarrow>
          (case p of
             D_ctx b \<Rightarrow> in_loop b 0 l
           | D_open b \<Rightarrow> in_loop b 0 l
           | D_failed b \<Rightarrow> in_loop b 1 l
           | D_sleep b \<Rightarrow> in_loop b 1 l
           | D_install c \<Rightarrow> fails l = length (sleeps l)
           | _ \<Rightarrow> l = [])
      | Done r \<Rightarrow> (case r of Ret_Conn w \<Rightarrow> fails l = length (sleeps l) | _ \<Rightarrow> True)
      | _ \<Rightarrow> True)"

definition backoff_inv :: "thread \<Rightarrow> bool" where
  "backoff_inv th \<longleftrightarrow> loop_inv (tcode th) (tlog th)"

text \<open>
  The total wait the specification gives for \<open>N\<close> failed attempts: the sum of
  \<open>min(100ms\<cdot>2^i, 2000ms)\<close> for \<open>i\<close> in \<open>[0, N-1]\<close>. This definition follows the
  specification's words, not the source.
\<close>

definition spec_total_wait :: "nat \<Rightarrow> duration" where
  "spec_total_wait N = (\<Sum>i<N. min (100 * Millisecond * 2 ^ i) (2000 * Millisecond))"

definition six_failures :: "action list" where
  "six_failures =
     [Spawn Call_Accept None, Step 0 Tau,
      Step 0 (Open_fail 0), Step 0 Tau, Step 0 Tau,
      Step 0 (Open_fail 0), Step 0 Tau, Step 0 Tau,
      Step 0 (Open_fail 0), Step 0 Tau, Step 0 Tau,
      Step 0 (Open_fail 0), Step 0 Tau, Step 0 Tau,
      Step 0 (Open_fail 0), Step 0 Tau, Step 0 Tau,
      Step 0 (Open_fail 0), Step 0 Tau, Step 0 Tau,
      Step 0 (Open_ok 1), Step 0 Tau]"

definition six_failures_end :: sys where
  "six_failures_end =
     \<lparr>shared = \<lparr>addr = ''tty'', closed = False, closedCh = Some 0, made = 1, chclosed = {}\<rparr>,
      threads =
        [\<lparr>tcall = Call_Accept,
          tcode = Done (Ret_Conn \<lparr>rwc = 1, local = ''tty'', remote = ''peer'',
                                  onClose = Some Release\<rparr>),
          tctx = None,
          tlog = [Ev_open_fail 0, Ev_sleep 100000000, Ev_open_fail 0, Ev_sleep 200000000,
                  Ev_open_fail 0, Ev_sleep 400000000, Ev_open_fail 0, Ev_sleep 800000000,
                  Ev_open_fail 0, Ev_sleep 1600000000, Ev_open_fail 0, Ev_sleep 3200000000,
                  Ev_open_ok 1]\<rparr>]\<rparr>"

subsection \<open>What a call may return\<close>

text \<open>
  For a thread running \<^verbatim>\<open>Accept\<close> or \<^verbatim>\<open>DialContext\<close>: it is inside the method, or it
  has returned a wrapper, \<^verbatim>\<open>net.ErrClosed\<close> or (the dialer) the error of its own context.
\<close>

definition fits :: "call \<Rightarrow> code \<Rightarrow> ctxerr option \<Rightarrow> bool" where
  "fits cl c ctx =
     (case cl of
        Call_Accept \<Rightarrow>
          (case c of
             In_Accept p \<Rightarrow> True
           | Done r \<Rightarrow> (case r of Ret_Conn w \<Rightarrow> True | Ret_Err x \<Rightarrow> x = ErrClosed | _ \<Rightarrow> False)
           | _ \<Rightarrow> False)
      | Call_DialContext n a \<Rightarrow>
          (case c of
             In_Dial p \<Rightarrow> True
           | Done r \<Rightarrow>
               (case r of
                  Ret_Conn w \<Rightarrow> True
                | Ret_Err x \<Rightarrow>
                    (case x of ErrClosed \<Rightarrow> True | CtxErr y \<Rightarrow> ctx = Some y | _ \<Rightarrow> False)
                | _ \<Rightarrow> False)
           | _ \<Rightarrow> False)
      | _ \<Rightarrow> True)"

definition returns_inv :: "thread \<Rightarrow> bool" where
  "returns_inv th \<longleftrightarrow> fits (tcall th) (tcode th) (tctx th)"

definition dial_cancelled :: "action list" where
  "dial_cancelled =
     [Spawn (Call_DialContext ''serial'' ''host'') None, Step 0 Tau, Step 0 Tau, Step 0 Tau,
      Step 0 (Open_fail 3), Step 0 Tau, Cancel 0 Canceled, Step 0 Pick_ctx]"

definition dial_cancelled_end :: sys where
  "dial_cancelled_end =
     \<lparr>shared = \<lparr>addr = ''tty'', closed = False, closedCh = None, made = 0, chclosed = {}\<rparr>,
      threads =
        [\<lparr>tcall = Call_DialContext ''serial'' ''host'',
          tcode = Done (Ret_Err (CtxErr Canceled)),
          tctx = Some Canceled,
          tlog = [Ev_open_fail 3]\<rparr>]\<rparr>"

subsection \<open>Waiting for the slot\<close>



definition listener_waiting :: sys where
  "listener_waiting =
     \<lparr>shared = \<lparr>addr = ''tty'', closed = False, closedCh = Some 0, made = 1, chclosed = {}\<rparr>,
      threads =
        [\<lparr>tcall = Call_Accept,
          tcode = Done (Ret_Conn \<lparr>rwc = 1, local = ''tty'', remote = ''peer'',
                                  onClose = Some Release\<rparr>),
          tctx = None, tlog = [Ev_open_ok 1]\<rparr>,
         \<lparr>tcall = Call_Accept, tcode = In_Accept (A_wait 0), tctx = None, tlog = []\<rparr>]\<rparr>"



definition dialer_waiting :: sys where
  "dialer_waiting =
     \<lparr>shared = \<lparr>addr = ''tty'', closed = False, closedCh = Some 0, made = 1, chclosed = {}\<rparr>,
      threads =
        [\<lparr>tcall = Call_DialContext ''serial'' ''host'',
          tcode = Done (Ret_Conn \<lparr>rwc = 1, local = ''tty'', remote = ''host'',
                                  onClose = Some Release\<rparr>),
          tctx = None, tlog = [Ev_open_ok 1]\<rparr>,
         \<lparr>tcall = Call_DialContext ''serial'' ''host'', tcode = In_Dial (D_wait 0),
          tctx = None, tlog = []\<rparr>]\<rparr>"

subsection \<open>Calls on a closed gate\<close>







subsection \<open>Closing a wrapper twice, and after the gate\<close>

definition conn1 :: rwConn where
  "conn1 = \<lparr>rwc = 1, local = ''tty'', remote = ''peer'', onClose = Some Release\<rparr>"

definition close_twice :: "action list" where
  "close_twice =
     [Spawn Call_Accept None, Step 0 Tau, Step 0 (Open_ok 1), Step 0 Tau,
      Spawn (Call_ConnClose conn1) None, Step 1 Tau, Step 1 (Close_ret None),
      Spawn Call_Accept None, Step 2 Tau, Step 2 (Open_ok 2), Step 2 Tau,
      Spawn (Call_ConnClose conn1) None, Step 3 Tau, Step 3 (Close_ret None),
      Spawn Call_Accept None, Step 4 Tau, Step 4 (Open_ok 3), Step 4 Tau]"

definition close_twice_end :: sys where
  "close_twice_end =
     \<lparr>shared = \<lparr>addr = ''tty'', closed = False, closedCh = Some 2, made = 3, chclosed = {0, 1}\<rparr>,
      threads =
        [\<lparr>tcall = Call_Accept, tcode = Done (Ret_Conn conn1), tctx = None,
          tlog = [Ev_open_ok 1]\<rparr>,
         \<lparr>tcall = Call_ConnClose conn1, tcode = Done Ret_Nil, tctx = None,
          tlog = [Ev_close_chan 0, Ev_close_stream 1]\<rparr>,
         \<lparr>tcall = Call_Accept,
          tcode = Done (Ret_Conn \<lparr>rwc = 2, local = ''tty'', remote = ''peer'',
                                  onClose = Some Release\<rparr>),
          tctx = None, tlog = [Ev_open_ok 2]\<rparr>,
         \<lparr>tcall = Call_ConnClose conn1, tcode = Done Ret_Nil, tctx = None,
          tlog = [Ev_close_chan 1, Ev_close_stream 1]\<rparr>,
         \<lparr>tcall = Call_Accept,
          tcode = Done (Ret_Conn \<lparr>rwc = 3, local = ''tty'', remote = ''peer'',
                                  onClose = Some Release\<rparr>),
          tctx = None, tlog = [Ev_open_ok 3]\<rparr>]\<rparr>"

definition close_after_gate_Close :: "action list" where
  "close_after_gate_Close =
     [Spawn Call_Accept None, Step 0 Tau, Step 0 (Open_ok 1), Step 0 Tau,
      Spawn Call_Close None, Step 1 Tau, Step 1 Tau, Step 1 Tau,
      Spawn (Call_ConnClose conn1) None, Step 2 Tau]"

definition two_openers :: "action list" where
  "two_openers =
     [Spawn Call_Accept None, Spawn Call_Accept None, Step 0 Tau, Step 1 Tau,
      Step 0 (Open_ok 1), Step 1 (Open_ok 2), Step 0 Tau, Step 1 Tau]"

definition gate_Close_races_conn_Close :: "action list" where
  "gate_Close_races_conn_Close =
     [Spawn Call_Accept None, Step 0 Tau, Step 0 (Open_ok 1), Step 0 Tau,
      Spawn Call_Close None, Step 1 Tau, Step 1 Tau,
      Spawn (Call_ConnClose conn1) None, Step 2 Tau,
      Step 1 Tau]"

subsection \<open>The channels of a gate\<close>








subsection \<open>Overlapping calls\<close>

definition two_Closes_overlap :: "action list" where
  "two_Closes_overlap =
     [Spawn Call_Accept None, Step 0 Tau, Step 0 (Open_ok 1), Step 0 Tau,
      Spawn Call_Close None, Spawn Call_Close None,
      Step 1 Tau, Step 2 Tau, Step 1 Tau, Step 2 Tau, Step 1 Tau]"

definition two_Closes_overlap_end :: sys where
  "two_Closes_overlap_end =
     \<lparr>shared = \<lparr>addr = ''tty'', closed = True, closedCh = Some 0, made = 1, chclosed = {0}\<rparr>,
      threads =
        [\<lparr>tcall = Call_Accept, tcode = Done (Ret_Conn conn1), tctx = None,
          tlog = [Ev_open_ok 1]\<rparr>,
         \<lparr>tcall = Call_Close, tcode = Done Ret_Nil, tctx = None, tlog = [Ev_close_chan 0]\<rparr>,
         \<lparr>tcall = Call_Close, tcode = In_Close (C_close 0), tctx = None, tlog = []\<rparr>]\<rparr>"

definition stale_waiter :: "action list" where
  "stale_waiter =
     [Spawn Call_Accept None, Spawn Call_Accept None, Step 0 Tau, Step 1 Tau,
      Step 0 (Open_ok 1), Step 0 Tau,
      Spawn Call_Accept None, Step 2 Tau,
      Step 1 (Open_ok 2), Step 1 Tau,
      Spawn Call_Close None, Step 3 Tau, Step 3 Tau, Step 3 Tau]"

definition stale_waiter_end :: sys where
  "stale_waiter_end =
     \<lparr>shared = \<lparr>addr = ''tty'', closed = True, closedCh = Some 1, made = 2, chclosed = {1}\<rparr>,
      threads =
        [\<lparr>tcall = Call_Accept, tcode = Done (Ret_Conn conn1), tctx = None,
          tlog = [Ev_open_ok 1]\<rparr>,
         \<lparr>tcall = Call_Accept,
          tcode = Done (Ret_Conn \<lparr>rwc = 2, local = ''tty'', remote = ''peer'',
                                  onClose = Some Release\<rparr>),
          tctx = None, tlog = [Ev_open_ok 2]\<rparr>,
         \<lparr>tcall = Call_Accept, tcode = In_Accept (A_wait 0), tctx = None, tlog = []\<rparr>,
         \<lparr>tcall = Call_Close, tcode = Done Ret_Nil, tctx = None, tlog = [Ev_close_chan 1]\<rparr>]\<rparr>"

definition stale_dial_waiter :: "action list" where
  "stale_dial_waiter =
     [Spawn (Call_DialContext ''serial'' ''host'') None,
      Spawn (Call_DialContext ''serial'' ''host'') None,
      Step 0 Tau, Step 0 Tau, Step 1 Tau, Step 1 Tau, Step 0 Tau, Step 1 Tau,
      Step 0 (Open_ok 1), Step 0 Tau,
      Spawn (Call_DialContext ''serial'' ''host'') None, Step 2 Tau, Step 2 Tau,
      Step 1 (Open_ok 2), Step 1 Tau,
      Spawn Call_Close None, Step 3 Tau, Step 3 Tau, Step 3 Tau]"

definition stale_dial_waiter_end :: sys where
  "stale_dial_waiter_end =
     \<lparr>shared = \<lparr>addr = ''tty'', closed = True, closedCh = Some 1, made = 2, chclosed = {1}\<rparr>,
      threads =
        [\<lparr>tcall = Call_DialContext ''serial'' ''host'',
          tcode = Done (Ret_Conn \<lparr>rwc = 1, local = ''tty'', remote = ''host'',
                                  onClose = Some Release\<rparr>),
          tctx = None, tlog = [Ev_open_ok 1]\<rparr>,
         \<lparr>tcall = Call_DialContext ''serial'' ''host'',
          tcode = Done (Ret_Conn \<lparr>rwc = 2, local = ''tty'', remote = ''host'',
                                  onClose = Some Release\<rparr>),
          tctx = None, tlog = [Ev_open_ok 2]\<rparr>,
         \<lparr>tcall = Call_DialContext ''serial'' ''host'', tcode = In_Dial (D_wait 0),
          tctx = None, tlog = []\<rparr>,
         \<lparr>tcall = Call_Close, tcode = Done Ret_Nil, tctx = None, tlog = [Ev_close_chan 1]\<rparr>]\<rparr>"

section \<open>Properties\<close>

subsection \<open>Stepping a thread\<close>

lemma on_Tau_Tau [simp]: "on_Tau Tau r = r"
  by (simp add: on_Tau_def)


lemma moved_simps [simp]:
  "shared (moved t c evs s) = shared s"
  "length (threads (moved t c evs s)) = length (threads s)"
  "r \<noteq> t \<Longrightarrow> threads (moved t c evs s) ! r = threads s ! r"
  "t < length (threads s) \<Longrightarrow> threads (moved t c evs s) ! t = advance (threads s ! t) c evs"
  by (simp_all add: moved_def)

lemma shared_update_same [simp]: "shared s' = g \<Longrightarrow> s'\<lparr>shared := g\<rparr> = s'"
  by auto

lemma advance_simps [simp]:
  "tcall (advance th c evs) = tcall th"
  "tcode (advance th c evs) = c"
  "tctx (advance th c evs) = tctx th"
  "tlog (advance th c evs) = tlog th @ evs"
  by (simp_all add: advance_def)

lemma cancel_simps [simp]:
  "tcall (cancel e th) = tcall th"
  "tcode (cancel e th) = tcode th"
  "tlog (cancel e th) = tlog th"
  by (simp_all add: cancel_def split: option.splits)

subsection \<open>What a step can be, and invariants of single threads\<close>

lemma step_cases:
  assumes "step a s = Inr s'"
  obtains (spawn) c ctx where "a = Spawn c ctx"
      "s' = s\<lparr>threads := threads s @ [\<lparr>tcall = c, tcode = start c, tctx = ctx, tlog = []\<rparr>]\<rparr>"
  | (cancel) t e where "a = Cancel t e" "t < length (threads s)"
      "s' = s\<lparr>threads := (threads s)[t := cancel e (threads s ! t)]\<rparr>"
  | (move) t e c evs g' where "a = Step t e" "t < length (threads s)"
      "thread_step e (tcall (threads s ! t)) (tcode (threads s ! t)) (tctx (threads s ! t))
         (shared s) = Inr (c, evs, g')"
      "s' = moved t c evs (s\<lparr>shared := g'\<rparr>)"
proof (cases a)
  case (Spawn c ctx)
  with assms spawn show ?thesis by auto
next
  case (Cancel t e)
  with assms cancel show ?thesis by (auto split: if_splits)
next
  case (Step t e)
  with assms move show ?thesis
    by (auto simp add: Let_def split: if_splits sum.splits)
qed

lemma thread_inv_step:
  assumes inv: "\<forall>th \<in> set (threads s). I th"
    and st: "step a s = Inr s'"
    and sp: "\<And>c ctx. I \<lparr>tcall = c, tcode = start c, tctx = ctx, tlog = []\<rparr>"
    and ca: "\<And>th e. I th \<Longrightarrow> I (cancel e th)"
    and mv: "\<And>th e c evs g g'. I th \<Longrightarrow>
               thread_step e (tcall th) (tcode th) (tctx th) g = Inr (c, evs, g') \<Longrightarrow>
               I (advance th c evs)"
  shows "\<forall>th \<in> set (threads s'). I th"
  using st
proof (cases rule: step_cases)
  case (spawn c ctx)
  with inv sp show ?thesis by auto
next
  case (cancel t e)
  have "I (cancel e (threads s ! t))"
    using inv cancel(2) by (intro ca) simp
  with inv cancel show ?thesis
    by (auto dest!: set_update_subset_insert [THEN subsetD])
next
  case (move t e c evs g')
  have "I (advance (threads s ! t) c evs)"
    using inv move(2) move(3) by (intro mv [where g = "shared s" and g' = g' and e = e]) simp_all
  with inv move show ?thesis
    by (auto simp add: moved_def dest!: set_update_subset_insert [THEN subsetD])
qed

lemma thread_inv_run:
  assumes inv: "\<forall>th \<in> set (threads s). I th"
    and st: "run acts s = Inr s'"
    and sp: "\<And>c ctx. I \<lparr>tcall = c, tcode = start c, tctx = ctx, tlog = []\<rparr>"
    and ca: "\<And>th e. I th \<Longrightarrow> I (cancel e th)"
    and mv: "\<And>th e c evs g g'. I th \<Longrightarrow>
               thread_step e (tcall th) (tcode th) (tctx th) g = Inr (c, evs, g') \<Longrightarrow>
               I (advance th c evs)"
  shows "\<forall>th \<in> set (threads s'). I th"
  using inv st
proof (induction acts arbitrary: s)
  case Nil
  then show ?case by simp
next
  case (Cons a acts)
  from Cons.prems(2) obtain s1 where s1: "step a s = Inr s1" and r: "run acts s1 = Inr s'"
    by (auto split: sum.splits)
  have "\<forall>th \<in> set (threads s1). I th"
    using Cons.prems(1) s1 sp ca mv by (rule thread_inv_step)
  then show ?case
    using r by (rule Cons.IH)
qed

subsection \<open>What never goes back: closed channels and the closed flag\<close>



subsection \<open>An already cancelled context\<close>

text \<open>
  Claim C10. A \<^verbatim>\<open>DialContext\<close> call that stands at its entry with a context that is
  already done returns the context's error in its first step, and that step does not read
  or change the gate: the result is the same whether the gate is open or closed, so on a
  closed gate the call reports the cancellation and not \<^verbatim>\<open>net.ErrClosed\<close>.
\<close>

theorem DialContext_cancelled_at_entry:
  assumes "thread_at s t (Call_DialContext n a) (In_Dial D_entry)"
    and "tctx (threads s ! t) = Some x"
  shows "step (Step t Tau) s = Inr (moved t (Done (Ret_Err (CtxErr x))) [] s)"
  using assms by (simp add: thread_at_def)

theorem DialContext_cancelled_at_entry_witness:
  "closed (shared closed_dialer) \<and>
   thread_at closed_dialer 0 (Call_DialContext ''serial'' ''peer'') (In_Dial D_entry) \<and>
   tctx (threads closed_dialer ! 0) = Some Canceled \<and>
   step (Step 0 Tau) closed_dialer = Inr (moved 0 (Done (Ret_Err (CtxErr Canceled))) [] closed_dialer)"
proof -
  have a: "thread_at closed_dialer 0 (Call_DialContext ''serial'' ''peer'') (In_Dial D_entry)"
    by (simp add: thread_at_def closed_dialer_def)
  have b: "tctx (threads closed_dialer ! 0) = Some Canceled"
    by (simp add: closed_dialer_def)
  have c: "closed (shared closed_dialer)"
    by (simp add: closed_dialer_def)
  from a b c DialContext_cancelled_at_entry [OF a b] show ?thesis by simp
qed

subsection \<open>The gate is closed while the stream is being opened\<close>

text \<open>
  Claim C9. After \<^verbatim>\<open>open()\<close> has succeeded with the stream \<open>c\<close>, the next step of
  \<^verbatim>\<open>Accept\<close> and of \<^verbatim>\<open>DialContext\<close> reads \<^verbatim>\<open>closed\<close> under the lock. If the gate is
  closed the call closes \<open>c\<close>, leaves the gate as it is (no slot is created) and returns
  \<^verbatim>\<open>net.ErrClosed\<close>; only if the gate is open it makes a fresh channel, stores it in
  \<^verbatim>\<open>closedCh\<close> and returns the wrapper of \<open>c\<close>.
\<close>

theorem install_checks_closed:
  "(thread_at s t Call_Accept (In_Accept (A_install c)) \<longrightarrow>
      step (Step t Tau) s =
        (if closed (shared s)
         then Inr (moved t (Done (Ret_Err ErrClosed)) [Ev_close_stream c] s)
         else Inr (moved t (Done (Ret_Conn \<lparr>rwc = c, local = addr (shared s), remote = ''peer'',
                                            onClose = Some Release\<rparr>)) []
                    (s\<lparr>shared := (shared s)\<lparr>made := Suc (made (shared s)),
                                              closedCh := Some (made (shared s))\<rparr>\<rparr>)))) \<and>
   (thread_at s t (Call_DialContext n a) (In_Dial (D_install c)) \<longrightarrow>
      step (Step t Tau) s =
        (if closed (shared s)
         then Inr (moved t (Done (Ret_Err ErrClosed)) [Ev_close_stream c] s)
         else Inr (moved t (Done (Ret_Conn \<lparr>rwc = c, local = addr (shared s), remote = a,
                                            onClose = Some Release\<rparr>)) []
                    (s\<lparr>shared := (shared s)\<lparr>made := Suc (made (shared s)),
                                              closedCh := Some (made (shared s))\<rparr>\<rparr>))))"
  by (simp add: thread_at_def install_def make_chan_def)

theorem install_checks_closed_witness:
  "thread_at closed_listener_installing 0 Call_Accept (In_Accept (A_install 7)) \<and>
   closed (shared closed_listener_installing) \<and>
   step (Step 0 Tau) closed_listener_installing =
     Inr (moved 0 (Done (Ret_Err ErrClosed)) [Ev_close_stream 7] closed_listener_installing) \<and>
   thread_at dialer_installing 0 (Call_DialContext ''serial'' ''host'') (In_Dial (D_install 7)) \<and>
   \<not> closed (shared dialer_installing) \<and>
   step (Step 0 Tau) dialer_installing =
     Inr (moved 0 (Done (Ret_Conn \<lparr>rwc = 7, local = ''tty'', remote = ''host'',
                                     onClose = Some Release\<rparr>)) []
           (dialer_installing\<lparr>shared := (NewGate ''tty'')\<lparr>made := 1, closedCh := Some 0\<rparr>\<rparr>))"
proof -
  have a: "thread_at closed_listener_installing 0 Call_Accept (In_Accept (A_install 7))"
    by (simp add: thread_at_def closed_listener_installing_def)
  have b: "closed (shared closed_listener_installing)"
    by (simp add: closed_listener_installing_def)
  have c: "thread_at dialer_installing 0 (Call_DialContext ''serial'' ''host'')
             (In_Dial (D_install 7))"
    by (simp add: thread_at_def dialer_installing_def)
  have d: "\<not> closed (shared dialer_installing)" "made (shared dialer_installing) = 0"
    "addr (shared dialer_installing) = ''tty''" "shared dialer_installing = NewGate ''tty''"
    by (simp_all add: dialer_installing_def NewGate_def)
  from install_checks_closed [where s = closed_listener_installing and t = 0 and c = 7] a b
  have e: "step (Step 0 Tau) closed_listener_installing =
     Inr (moved 0 (Done (Ret_Err ErrClosed)) [Ev_close_stream 7] closed_listener_installing)"
    by simp
  from install_checks_closed [where s = dialer_installing and t = 0 and c = 7
      and n = "''serial''" and a = "''host''"] c d
  have f: "step (Step 0 Tau) dialer_installing =
     Inr (moved 0 (Done (Ret_Conn \<lparr>rwc = 7, local = ''tty'', remote = ''host'',
                                     onClose = Some Release\<rparr>)) []
           (dialer_installing\<lparr>shared := (NewGate ''tty'')\<lparr>made := 1, closedCh := Some 0\<rparr>\<rparr>))"
    by simp
  from a b c d e f show ?thesis by simp
qed

subsection \<open>Deadlines\<close>

text \<open>
  Claim C8. For every wrapper and every instant (past, present or future),
  \<^verbatim>\<open>SetDeadline\<close>, \<^verbatim>\<open>SetReadDeadline\<close> and \<^verbatim>\<open>SetWriteDeadline\<close> return \<^verbatim>\<open>nil\<close> in one
  step that changes neither the gate nor any other thread nor makes any call on the stream;
  a \<^verbatim>\<open>Read\<close> or \<^verbatim>\<open>Write\<close> made afterwards on the wrapper returns exactly what the stream
  returns, so the connection layer adds no timeout failure.
\<close>

theorem deadlines_have_no_effect:
  assumes "thread_at s t (Call_SetDeadline w d) In_Conn \<or>
           thread_at s t (Call_SetReadDeadline w d) In_Conn \<or>
           thread_at s t (Call_SetWriteDeadline w d) In_Conn"
  shows "step (Step t Tau) s = Inr (moved t (Done Ret_Nil) [] s) \<and>
         (\<forall>r k x. r \<noteq> t \<and> thread_at s r (Call_Read w) In_Conn \<longrightarrow>
            step (Step r (IO_ret k x)) (moved t (Done Ret_Nil) [] s) =
              Inr (moved r (Done (Ret_IO k x)) [Ev_read (rwc w)] (moved t (Done Ret_Nil) [] s))) \<and>
         (\<forall>r k x. r \<noteq> t \<and> thread_at s r (Call_Write w) In_Conn \<longrightarrow>
            step (Step r (IO_ret k x)) (moved t (Done Ret_Nil) [] s) =
              Inr (moved r (Done (Ret_IO k x)) [Ev_write (rwc w)] (moved t (Done Ret_Nil) [] s)))"
  using assms
  by (auto simp add: thread_at_def SetDeadline_def SetReadDeadline_def SetWriteDeadline_def
      rwConn_Read_def rwConn_Write_def)

theorem deadlines_have_no_effect_witness:
  "thread_at conn_in_use 0 (Call_SetReadDeadline conn7 (- 5)) In_Conn \<and>
   thread_at conn_in_use 1 (Call_Read conn7) In_Conn \<and>
   thread_at conn_in_use 2 (Call_Write conn7) In_Conn \<and>
   step (Step 0 Tau) conn_in_use = Inr (moved 0 (Done Ret_Nil) [] conn_in_use) \<and>
   step (Step 1 (IO_ret 3 None)) (moved 0 (Done Ret_Nil) [] conn_in_use) =
     Inr (moved 1 (Done (Ret_IO 3 None)) [Ev_read 7] (moved 0 (Done Ret_Nil) [] conn_in_use)) \<and>
   step (Step 2 (IO_ret 3 None)) (moved 0 (Done Ret_Nil) [] conn_in_use) =
     Inr (moved 2 (Done (Ret_IO 3 None)) [Ev_write 7] (moved 0 (Done Ret_Nil) [] conn_in_use))"
proof -
  have a: "thread_at conn_in_use 0 (Call_SetReadDeadline conn7 (- 5)) In_Conn"
    by (simp add: thread_at_def conn_in_use_def)
  have b: "thread_at conn_in_use 1 (Call_Read conn7) In_Conn"
    by (simp add: thread_at_def conn_in_use_def)
  have c: "thread_at conn_in_use 2 (Call_Write conn7) In_Conn"
    by (simp add: thread_at_def conn_in_use_def)
  have d: "rwc conn7 = 7"
    by (simp add: conn7_def)
  have "thread_at conn_in_use 0 (Call_SetDeadline conn7 (- 5)) In_Conn \<or>
        thread_at conn_in_use 0 (Call_SetReadDeadline conn7 (- 5)) In_Conn \<or>
        thread_at conn_in_use 0 (Call_SetWriteDeadline conn7 (- 5)) In_Conn"
    using a by simp
  from deadlines_have_no_effect [OF this] a b c d show ?thesis
    by simp
qed

subsection \<open>Closing the gate\<close>

text \<open>One uninterrupted call of \<^verbatim>\<open>Close()\<close>, by the state of the slot it finds.\<close>

lemma call_Close_no_slot:
  assumes "closedCh (shared s) = None"
  shows "call_Close s = Inr \<lparr>shared = (shared s)\<lparr>closed := True\<rparr>,
            threads = threads s @ [\<lparr>tcall = Call_Close, tcode = Done Ret_Nil, tctx = None, tlog = []\<rparr>]\<rparr>"
  using assms
  by (simp add: call_Close_def eval_nat_numeral moved_def advance_def nth_append)

lemma call_Close_slot_closed:
  assumes "closedCh (shared s) = Some ch" "ch \<in> chclosed (shared s)"
  shows "call_Close s = Inr \<lparr>shared = (shared s)\<lparr>closed := True\<rparr>,
            threads = threads s @ [\<lparr>tcall = Call_Close, tcode = Done Ret_Nil, tctx = None, tlog = []\<rparr>]\<rparr>"
  using assms
  by (simp add: call_Close_def eval_nat_numeral moved_def advance_def nth_append)

lemma call_Close_slot_open:
  assumes "closedCh (shared s) = Some ch" "ch \<notin> chclosed (shared s)"
  shows "call_Close s = Inr \<lparr>shared = (shared s)\<lparr>closed := True, chclosed := insert ch (chclosed (shared s))\<rparr>,
            threads = threads s @ [\<lparr>tcall = Call_Close, tcode = Done Ret_Nil, tctx = None, tlog = [Ev_close_chan ch]\<rparr>]\<rparr>"
  using assms
  by (simp add: call_Close_def eval_nat_numeral moved_def advance_def nth_append close_chan_def)


lemma call_Close_again:
  assumes "closed (shared s)"
    and "closedCh (shared s) = None \<or> (\<exists>ch. closedCh (shared s) = Some ch \<and> ch \<in> chclosed (shared s))"
  shows "call_Close s = Inr (s\<lparr>threads := threads s @
            [\<lparr>tcall = Call_Close, tcode = Done Ret_Nil, tctx = None, tlog = []\<rparr>]\<rparr>)"
proof -
  have "(shared s)\<lparr>closed := True\<rparr> = shared s"
    using assms(1) by simp
  with assms(2) show ?thesis
    by (auto simp add: call_Close_no_slot call_Close_slot_closed)
qed

lemma calls_Close_again:
  assumes "closed (shared s)"
    and "closedCh (shared s) = None \<or> (\<exists>ch. closedCh (shared s) = Some ch \<and> ch \<in> chclosed (shared s))"
  shows "calls_Close k s = Inr (s\<lparr>threads := threads s @
            replicate k \<lparr>tcall = Call_Close, tcode = Done Ret_Nil, tctx = None, tlog = []\<rparr>\<rparr>)"
  using assms
proof (induction k arbitrary: s)
  case 0
  then show ?case by simp
next
  case (Suc k)
  let ?T = "\<lparr>tcall = Call_Close, tcode = Done Ret_Nil, tctx = None, tlog = []\<rparr>"
  let ?s' = "s\<lparr>threads := threads s @ [?T]\<rparr>"
  have c: "call_Close s = Inr ?s'"
    using Suc.prems by (rule call_Close_again)
  have "calls_Close k ?s' = Inr (?s'\<lparr>threads := threads ?s' @ replicate k ?T\<rparr>)"
    using Suc.prems by (intro Suc.IH) simp_all
  with c show ?case
    by (simp add: replicate_app_Cons_same)
qed

text \<open>
  Calls that no step of another goroutine interrupts. Such a call of \<^verbatim>\<open>Close()\<close> on
  the listener or the dialer never panics and returns \<^verbatim>\<open>nil\<close>. The first call sets
  \<^verbatim>\<open>closed\<close> and, if a slot is set and its channel still open, closes that channel,
  once; it changes nothing else (the slot stays set). Any number of further calls, one after the other, each return \<^verbatim>\<open>nil\<close>,
  close no channel and leave the gate exactly as the first call left it.
\<close>

theorem Close_idempotent:
  "\<exists>s1. call_Close s = Inr s1 \<and>
     shared s1 = (shared s)\<lparr>closed := True,
        chclosed := (case closedCh (shared s) of
                       None \<Rightarrow> chclosed (shared s)
                     | Some ch \<Rightarrow> insert ch (chclosed (shared s)))\<rparr> \<and>
     threads s1 = threads s @
        [\<lparr>tcall = Call_Close, tcode = Done Ret_Nil, tctx = None,
          tlog = (case closedCh (shared s) of
                    None \<Rightarrow> []
                  | Some ch \<Rightarrow> if ch \<in> chclosed (shared s) then [] else [Ev_close_chan ch])\<rparr>] \<and>
     (\<forall>k. calls_Close k s1 = Inr (s1\<lparr>threads := threads s1 @
        replicate k \<lparr>tcall = Call_Close, tcode = Done Ret_Nil, tctx = None, tlog = []\<rparr>\<rparr>))"
proof (cases "closedCh (shared s)")
  case None
  let ?s1 = "\<lparr>shared = (shared s)\<lparr>closed := True\<rparr>,
            threads = threads s @ [\<lparr>tcall = Call_Close, tcode = Done Ret_Nil, tctx = None, tlog = []\<rparr>]\<rparr>"
  have a: "call_Close s = Inr ?s1"
    using None by (rule call_Close_no_slot)
  have b: "\<forall>k. calls_Close k ?s1 = Inr (?s1\<lparr>threads := threads ?s1 @
        replicate k \<lparr>tcall = Call_Close, tcode = Done Ret_Nil, tctx = None, tlog = []\<rparr>\<rparr>)"
    using None by (intro allI calls_Close_again) simp_all
  from a b None show ?thesis
    by (intro exI [of _ ?s1]) simp
next
  case (Some ch)
  show ?thesis
  proof (cases "ch \<in> chclosed (shared s)")
    case True
    let ?s1 = "\<lparr>shared = (shared s)\<lparr>closed := True\<rparr>,
            threads = threads s @ [\<lparr>tcall = Call_Close, tcode = Done Ret_Nil, tctx = None, tlog = []\<rparr>]\<rparr>"
    have a: "call_Close s = Inr ?s1"
      using Some True by (rule call_Close_slot_closed)
    have b: "\<forall>k. calls_Close k ?s1 = Inr (?s1\<lparr>threads := threads ?s1 @
        replicate k \<lparr>tcall = Call_Close, tcode = Done Ret_Nil, tctx = None, tlog = []\<rparr>\<rparr>)"
      using Some True by (intro allI calls_Close_again) simp_all
    have "insert ch (chclosed (shared s)) = chclosed (shared s)"
      using True by auto
    with a b Some True show ?thesis
      by (intro exI [of _ ?s1]) simp
  next
    case False
    let ?s1 = "\<lparr>shared = (shared s)\<lparr>closed := True, chclosed := insert ch (chclosed (shared s))\<rparr>,
            threads = threads s @ [\<lparr>tcall = Call_Close, tcode = Done Ret_Nil, tctx = None,
              tlog = [Ev_close_chan ch]\<rparr>]\<rparr>"
    have a: "call_Close s = Inr ?s1"
      using Some False by (rule call_Close_slot_open)
    have b: "\<forall>k. calls_Close k ?s1 = Inr (?s1\<lparr>threads := threads ?s1 @
        replicate k \<lparr>tcall = Call_Close, tcode = Done Ret_Nil, tctx = None, tlog = []\<rparr>\<rparr>)"
      using Some False by (intro allI calls_Close_again) simp_all
    from a b Some False show ?thesis
      by (intro exI [of _ ?s1]) simp
  qed
qed

theorem Close_idempotent_witness:
  "closedCh (shared listener_waiting) = Some 0 \<and> 0 \<notin> chclosed (shared listener_waiting) \<and>
   (\<exists>s1. call_Close listener_waiting = Inr s1 \<and>
      shared s1 = (shared listener_waiting)\<lparr>closed := True, chclosed := {0}\<rparr> \<and>
      threads s1 = threads listener_waiting @
        [\<lparr>tcall = Call_Close, tcode = Done Ret_Nil, tctx = None, tlog = [Ev_close_chan 0]\<rparr>] \<and>
      calls_Close 2 s1 = Inr (s1\<lparr>threads := threads s1 @
        replicate 2 \<lparr>tcall = Call_Close, tcode = Done Ret_Nil, tctx = None, tlog = []\<rparr>\<rparr>))"
proof -
  have a: "closedCh (shared listener_waiting) = Some 0"
    "0 \<notin> chclosed (shared listener_waiting)" "chclosed (shared listener_waiting) = {}"
    by (simp_all add: listener_waiting_def)
  from Close_idempotent [of listener_waiting] obtain s1 where
    "call_Close listener_waiting = Inr s1"
    "shared s1 = (shared listener_waiting)\<lparr>closed := True,
        chclosed := (case closedCh (shared listener_waiting) of
                       None \<Rightarrow> chclosed (shared listener_waiting)
                     | Some ch \<Rightarrow> insert ch (chclosed (shared listener_waiting)))\<rparr>"
    "threads s1 = threads listener_waiting @
        [\<lparr>tcall = Call_Close, tcode = Done Ret_Nil, tctx = None,
          tlog = (case closedCh (shared listener_waiting) of
                    None \<Rightarrow> []
                  | Some ch \<Rightarrow> if ch \<in> chclosed (shared listener_waiting) then []
                      else [Ev_close_chan ch])\<rparr>]"
    "\<forall>k. calls_Close k s1 = Inr (s1\<lparr>threads := threads s1 @
        replicate k \<lparr>tcall = Call_Close, tcode = Done Ret_Nil, tctx = None, tlog = []\<rparr>\<rparr>)"
    by blast
  then have "call_Close listener_waiting = Inr s1 \<and>
      shared s1 = (shared listener_waiting)\<lparr>closed := True, chclosed := {0}\<rparr> \<and>
      threads s1 = threads listener_waiting @
        [\<lparr>tcall = Call_Close, tcode = Done Ret_Nil, tctx = None, tlog = [Ev_close_chan 0]\<rparr>] \<and>
      calls_Close 2 s1 = Inr (s1\<lparr>threads := threads s1 @
        replicate 2 \<lparr>tcall = Call_Close, tcode = Done Ret_Nil, tctx = None, tlog = []\<rparr>\<rparr>)"
    using a by simp
  then have "\<exists>s1. call_Close listener_waiting = Inr s1 \<and>
      shared s1 = (shared listener_waiting)\<lparr>closed := True, chclosed := {0}\<rparr> \<and>
      threads s1 = threads listener_waiting @
        [\<lparr>tcall = Call_Close, tcode = Done Ret_Nil, tctx = None, tlog = [Ev_close_chan 0]\<rparr>] \<and>
      calls_Close 2 s1 = Inr (s1\<lparr>threads := threads s1 @
        replicate 2 \<lparr>tcall = Call_Close, tcode = Done Ret_Nil, tctx = None, tlog = []\<rparr>\<rparr>)"
    by (rule exI)
  with a(1) a(2) show ?thesis
    by (intro conjI)
qed

text \<open>
  Claim C7, evaluated on the code. \<^verbatim>\<open>Close()\<close> tests outside the lock whether the
  channel is closed (the \<^verbatim>\<open>select\<close>, serve.go 51-53) and closes it in a later step
  (serve.go 54). A listener has an open connection (channel 0) and two goroutines call
  \<^verbatim>\<open>Close()\<close>: both read the slot, both find the channel open in their \<^verbatim>\<open>select\<close>, the
  first closes it and returns \<^verbatim>\<open>nil\<close>, and the \<^verbatim>\<open>close(ch)\<close> of the second panics on
  the channel that is already closed.
\<close>

theorem overlapping_Close_panics:
  "run two_Closes_overlap (NewReopenListener ''tty'') = Inr two_Closes_overlap_end \<and>
   step (Step 2 Tau) two_Closes_overlap_end = Inl Panic"
  by (simp add: two_Closes_overlap_def two_Closes_overlap_end_def conn1_def
      NewReopenListener_def NewGate_def moved_def advance_def install_def make_chan_def
      close_chan_def)

text \<open>
  The same happens to a single \<^verbatim>\<open>Close()\<close> when the wrapper of the active connection is
  closed between its \<^verbatim>\<open>select\<close> and its \<^verbatim>\<open>close(ch)\<close>.
\<close>

lemma gate_Close_races_conn_Close_panics:
  "run gate_Close_races_conn_Close (NewReopenListener ''tty'') = Inl Panic"
  by (simp add: gate_Close_races_conn_Close_def conn1_def NewReopenListener_def NewGate_def
      moved_def advance_def install_def make_chan_def run_onClose_def close_chan_def)

subsection \<open>The backoff of the retry loop\<close>

lemma sleeps_append [simp]: "sleeps (l @ l') = sleeps l @ sleeps l'"
  by (induction l) (auto split: event.splits)

lemma fails_append [simp]: "fails (l @ l') = fails l + fails l'"
  by (induction l) (auto split: event.splits)

lemma backoff_nth_values:
  "backoff_nth 0 = 100 * Millisecond"
  "backoff_nth 1 = 200 * Millisecond"
  "backoff_nth 2 = 400 * Millisecond"
  "backoff_nth 3 = 800 * Millisecond"
  "backoff_nth 4 = 1600 * Millisecond"
  "backoff_nth 5 = 3200 * Millisecond"
  by (simp_all add: eval_nat_numeral next_backoff_def Second_def Millisecond_def)

lemma backoff_nth_capped: "5 \<le> i \<Longrightarrow> backoff_nth i = 3200 * Millisecond"
proof (induction i rule: nat_induct_at_least)
  case base
  show ?case by (rule backoff_nth_values)
next
  case (Suc n)
  then show ?case
    by (simp add: next_backoff_def Second_def Millisecond_def)
qed

lemma backoff_nth_closed_form:
  "backoff_nth i = min (100 * Millisecond * 2 ^ i) (3200 * Millisecond)"
proof (cases "i < 5")
  case True
  have small: "\<forall>j \<in> {0, 1, 2, 3, 4}.
      backoff_nth j = min (100 * Millisecond * 2 ^ j) (3200 * Millisecond)"
    by (simp add: eval_nat_numeral next_backoff_def Second_def Millisecond_def)
  from True have "i \<in> {0, 1, 2, 3, 4}"
    by auto
  with small show ?thesis
    by blast
next
  case False
  then have i: "5 \<le> i" by simp
  then have "(2::int) ^ 5 \<le> 2 ^ i"
    by (intro power_increasing) simp_all
  then have "3200 * Millisecond \<le> 100 * Millisecond * 2 ^ i"
    by (simp add: Millisecond_def)
  with i show ?thesis
    by (simp add: backoff_nth_capped min_def)
qed

text \<open>
  \<^verbatim>\<open>time.Duration\<close> is an \<^verbatim>\<open>int64\<close>: the doubling never leaves its range.
\<close>

lemma backoff_nth_in_int64: "0 < backoff_nth i \<and> backoff_nth i < 2 ^ 63"
  by (simp add: backoff_nth_closed_form Millisecond_def)

lemma backoff_inv_start: "backoff_inv \<lparr>tcall = c, tcode = start c, tctx = ctx, tlog = []\<rparr>"
  by (cases c) (simp_all add: backoff_inv_def loop_inv_def)

lemma backoff_inv_cancel: "backoff_inv th \<Longrightarrow> backoff_inv (cancel e th)"
  by (simp add: backoff_inv_def)

lemma upt_map_snoc: "map f [0..<n] @ [f n] = map f [0..<Suc n]"
  by simp

lemma backoff_inv_Accept:
  assumes "backoff_inv th" "tcode th = In_Accept p" "Accept e p g = Inr (c, evs, g')"
  shows "backoff_inv (advance th c evs)"
  using assms
  by (cases p; cases e)
     (auto simp add: backoff_inv_def loop_inv_def in_loop_def on_Tau_def install_def make_chan_def
           split: if_splits option.splits)

lemma backoff_inv_DialContext:
  assumes "backoff_inv th" "tcode th = In_Dial p" "DialContext ctx a e p g = Inr (c, evs, g')"
  shows "backoff_inv (advance th c evs)"
  using assms
  by (cases p; cases e)
     (auto simp add: backoff_inv_def loop_inv_def in_loop_def on_Tau_def install_def make_chan_def
           split: if_splits option.splits)


lemma backoff_inv_thread_step:
  assumes "backoff_inv th"
    and "thread_step e (tcall th) (tcode th) (tctx th) g = Inr (c, evs, g')"
  shows "backoff_inv (advance th c evs)"
proof (cases "tcode th")
  case (In_Accept p)
  with assms show ?thesis
    by (cases "tcall th") (auto intro: backoff_inv_Accept)
next
  case (In_Dial p)
  with assms show ?thesis
    by (cases "tcall th") (auto intro: backoff_inv_DialContext)
next
  case (In_Close p)
  with assms show ?thesis
    by (cases "tcall th"; cases p; cases e)
       (auto simp add: backoff_inv_def loop_inv_def on_Tau_def close_chan_def
             split: if_splits option.splits)
next
  case (In_ConnClose p)
  with assms show ?thesis
    by (cases "tcall th"; cases p; cases e)
       (auto simp add: backoff_inv_def loop_inv_def on_Tau_def close_chan_def run_onClose_def
             split: if_splits option.splits callback.splits)
next
  case In_Conn
  with assms show ?thesis
    by (cases "tcall th"; cases e)
       (auto simp add: backoff_inv_def loop_inv_def on_Tau_def SetDeadline_def
             SetReadDeadline_def SetWriteDeadline_def rwConn_Read_def rwConn_Write_def)
next
  case (Done r)
  with assms show ?thesis by simp
qed

lemma sum_list_upt: "sum_list (map f [0..<n]) = (\<Sum>i<n. f i)"
  by (induction n) simp_all

text \<open>
  Claim C2, as amended. In the retry loop of \<^verbatim>\<open>Accept\<close> and of \<^verbatim>\<open>DialContext\<close> the
  backoff starts at 100 ms and is doubled after a failed attempt as long as it is below
  2 s: the waits are 100, 200, 400, 800, 1600 and then 3200 ms for every further attempt.
  A call that returns a connection after \<open>N\<close> failed attempts, in any interleaving with
  other calls, has slept \<open>min(100ms\<cdot>2^i, 3200ms)\<close> after its \<open>i\<close>-th failure, for \<open>i\<close> in
  \<open>[0, N-1]\<close>, and the sum of these in total.
\<close>

theorem backoff_sequence:
  assumes "threads s0 = []"
    and "run acts s0 = Inr s"
    and "t < length (threads s)"
    and "tcode (threads s ! t) = Done (Ret_Conn w)"
  shows "sleeps (tlog (threads s ! t)) =
           map (\<lambda>i. min (100 * Millisecond * 2 ^ i) (3200 * Millisecond))
             [0..<fails (tlog (threads s ! t))] \<and>
         sum_list (sleeps (tlog (threads s ! t))) =
           (\<Sum>i<fails (tlog (threads s ! t)). min (100 * Millisecond * 2 ^ i) (3200 * Millisecond))"
proof -
  have "\<forall>th \<in> set (threads s0). backoff_inv th"
    using assms(1) by simp
  then have "\<forall>th \<in> set (threads s). backoff_inv th"
    using assms(2)
    by (rule thread_inv_run) (auto intro: backoff_inv_start backoff_inv_cancel backoff_inv_thread_step)
  then have "backoff_inv (threads s ! t)"
    using assms(3) by simp
  then have "sleeps (tlog (threads s ! t)) = map backoff_nth [0..<fails (tlog (threads s ! t))]"
    using assms(4) by (simp add: backoff_inv_def loop_inv_def)
  then have a: "sleeps (tlog (threads s ! t)) =
           map (\<lambda>i. min (100 * Millisecond * 2 ^ i) (3200 * Millisecond))
             [0..<fails (tlog (threads s ! t))]"
    by (simp add: backoff_nth_closed_form)
  show ?thesis
    using a by (simp add: sum_list_upt)
qed

lemma six_failures_run: "run six_failures (NewReopenListener ''tty'') = Inr six_failures_end"
  by (simp add: six_failures_def six_failures_end_def NewReopenListener_def NewGate_def
      moved_def advance_def install_def make_chan_def next_backoff_def Second_def Millisecond_def)

lemma spec_total_wait_6: "spec_total_wait 6 = 5100 * Millisecond"
  by (simp add: spec_total_wait_def Millisecond_def eval_nat_numeral lessThan_Suc)

theorem backoff_sequence_witness:
  "threads (NewReopenListener ''tty'') = [] \<and>
   run six_failures (NewReopenListener ''tty'') = Inr six_failures_end \<and>
   0 < length (threads six_failures_end) \<and>
   tcode (threads six_failures_end ! 0) =
     Done (Ret_Conn \<lparr>rwc = 1, local = ''tty'', remote = ''peer'', onClose = Some Release\<rparr>) \<and>
   sum_list (sleeps (tlog (threads six_failures_end ! 0))) =
     (\<Sum>i<fails (tlog (threads six_failures_end ! 0)).
        min (100 * Millisecond * 2 ^ i) (3200 * Millisecond))"
proof -
  have a: "threads (NewReopenListener ''tty'') = []"
    by (simp add: NewReopenListener_def)
  have b: "0 < length (threads six_failures_end)"
    by (simp add: six_failures_end_def)
  have c: "tcode (threads six_failures_end ! 0) =
     Done (Ret_Conn \<lparr>rwc = 1, local = ''tty'', remote = ''peer'', onClose = Some Release\<rparr>)"
    by (simp add: six_failures_end_def)
  have d: "sum_list (sleeps (tlog (threads six_failures_end ! 0))) =
     (\<Sum>i<fails (tlog (threads six_failures_end ! 0)).
        min (100 * Millisecond * 2 ^ i) (3200 * Millisecond))"
    using backoff_sequence [OF a six_failures_run b c] by (rule conjunct2)
  from a six_failures_run b c d show ?thesis
    by (intro conjI)
qed

text \<open>
  Claim C2 as the specification states it (a cap of 2 s, a total wait of the sum of
  \<open>min(100ms\<cdot>2^i, 2000ms)\<close>) fails: an \<^verbatim>\<open>Accept\<close> whose \<^verbatim>\<open>open()\<close> fails six times
  sleeps 3200 ms after the sixth failure and 6300 ms in total, where the specification
  gives 5100 ms.
\<close>

theorem six_failures_wait_more_than_spec:
  "run six_failures (NewReopenListener ''tty'') = Inr six_failures_end \<and>
   tcode (threads six_failures_end ! 0) =
     Done (Ret_Conn \<lparr>rwc = 1, local = ''tty'', remote = ''peer'', onClose = Some Release\<rparr>) \<and>
   fails (tlog (threads six_failures_end ! 0)) = 6 \<and>
   sleeps (tlog (threads six_failures_end ! 0)) =
     [100 * Millisecond, 200 * Millisecond, 400 * Millisecond, 800 * Millisecond,
      1600 * Millisecond, 3200 * Millisecond] \<and>
   sum_list (sleeps (tlog (threads six_failures_end ! 0))) = 6300 * Millisecond \<and>
   spec_total_wait 6 = 5100 * Millisecond \<and>
   sum_list (sleeps (tlog (threads six_failures_end ! 0))) \<noteq> spec_total_wait 6"
  by (simp add: six_failures_run spec_total_wait_6) (simp add: six_failures_end_def Millisecond_def)

subsection \<open>What a call may return\<close>

lemma cancel_tctx: "tctx th = Some y \<Longrightarrow> tctx (cancel e th) = Some y"
  by (simp add: cancel_def)

lemma returns_inv_start: "returns_inv \<lparr>tcall = c, tcode = start c, tctx = ctx, tlog = []\<rparr>"
  by (cases c) (simp_all add: returns_inv_def fits_def)

lemma returns_inv_cancel: "returns_inv th \<Longrightarrow> returns_inv (cancel e th)"
  by (auto simp add: returns_inv_def fits_def cancel_tctx
      split: call.splits code.splits retval.splits error.splits)

lemma returns_inv_thread_step:
  assumes "returns_inv th"
    and "thread_step e (tcall th) (tcode th) (tctx th) g = Inr (c, evs, g')"
  shows "returns_inv (advance th c evs)"
proof (cases "tcode th")
  case (In_Accept p)
  with assms show ?thesis
    by (cases "tcall th"; cases p; cases e)
       (auto simp add: returns_inv_def fits_def on_Tau_def install_def make_chan_def
             split: if_splits option.splits)
next
  case (In_Dial p)
  with assms show ?thesis
    by (cases "tcall th"; cases p; cases e)
       (auto simp add: returns_inv_def fits_def on_Tau_def install_def make_chan_def
             split: if_splits option.splits)
next
  case (In_Close p)
  with assms show ?thesis
    by (cases "tcall th") (auto simp add: returns_inv_def fits_def)
next
  case (In_ConnClose p)
  with assms show ?thesis
    by (cases "tcall th") (auto simp add: returns_inv_def fits_def)
next
  case In_Conn
  with assms show ?thesis
    by (cases "tcall th") (auto simp add: returns_inv_def fits_def)
next
  case (Done r)
  with assms show ?thesis by simp
qed

lemma dial_cancelled_run: "run dial_cancelled (NewReopenDialer ''tty'') = Inr dial_cancelled_end"
  by (simp add: dial_cancelled_def dial_cancelled_end_def NewReopenDialer_def NewGate_def
      moved_def advance_def cancel_def)

text \<open>
  Claim C5. In every interleaving that starts from a gate without calls, a call of
  \<^verbatim>\<open>Accept\<close> that has returned has returned a wrapper or \<^verbatim>\<open>net.ErrClosed\<close>, and a call
  of \<^verbatim>\<open>DialContext\<close> that has returned has returned a wrapper, \<^verbatim>\<open>net.ErrClosed\<close> or the
  error of its own context; neither ever returns an error that \<^verbatim>\<open>open()\<close> returned.
\<close>

theorem terminal_outcomes:
  assumes "threads s0 = []"
    and "run acts s0 = Inr s"
    and "t < length (threads s)"
    and "tcode (threads s ! t) = Done r"
  shows "(tcall (threads s ! t) = Call_Accept \<longrightarrow>
            ((\<exists>w. r = Ret_Conn w) \<or> r = Ret_Err ErrClosed) \<and> (\<forall>e. r \<noteq> Ret_Err (OpenErr e))) \<and>
         (\<forall>n a. tcall (threads s ! t) = Call_DialContext n a \<longrightarrow>
            ((\<exists>w. r = Ret_Conn w) \<or> r = Ret_Err ErrClosed \<or>
             (\<exists>x. r = Ret_Err (CtxErr x) \<and> tctx (threads s ! t) = Some x)) \<and>
            (\<forall>e. r \<noteq> Ret_Err (OpenErr e)))"
proof -
  have "\<forall>th \<in> set (threads s0). returns_inv th"
    using assms(1) by simp
  then have "\<forall>th \<in> set (threads s). returns_inv th"
    using assms(2)
    by (rule thread_inv_run) (auto intro: returns_inv_start returns_inv_cancel returns_inv_thread_step)
  then have inv: "returns_inv (threads s ! t)"
    using assms(3) by simp
  show ?thesis
  proof (cases r)
    case (Ret_Err x)
    with inv assms(4) show ?thesis
      by (cases x) (auto simp add: returns_inv_def fits_def)
  qed (use inv assms(4) in \<open>auto simp add: returns_inv_def fits_def\<close>)
qed

theorem terminal_outcomes_witness:
  "threads (NewReopenListener ''tty'') = [] \<and>
   run six_failures (NewReopenListener ''tty'') = Inr six_failures_end \<and>
   0 < length (threads six_failures_end) \<and>
   tcall (threads six_failures_end ! 0) = Call_Accept \<and>
   fails (tlog (threads six_failures_end ! 0)) = 6 \<and>
   (\<exists>w. tcode (threads six_failures_end ! 0) = Done (Ret_Conn w)) \<and>
   threads (NewReopenDialer ''tty'') = [] \<and>
   run dial_cancelled (NewReopenDialer ''tty'') = Inr dial_cancelled_end \<and>
   0 < length (threads dial_cancelled_end) \<and>
   tcall (threads dial_cancelled_end ! 0) = Call_DialContext ''serial'' ''host'' \<and>
   fails (tlog (threads dial_cancelled_end ! 0)) = 1 \<and>
   tcode (threads dial_cancelled_end ! 0) = Done (Ret_Err (CtxErr Canceled)) \<and>
   (\<forall>e. Ret_Err (CtxErr Canceled) \<noteq> Ret_Err (OpenErr e))"
proof -
  let ?w = "\<lparr>rwc = 1, local = ''tty'', remote = ''peer'', onClose = Some Release\<rparr>"
  have a: "threads (NewReopenListener ''tty'') = []" "threads (NewReopenDialer ''tty'') = []"
    by (simp_all add: NewReopenListener_def NewReopenDialer_def)
  have b: "0 < length (threads six_failures_end)" "0 < length (threads dial_cancelled_end)"
    by (simp_all add: six_failures_end_def dial_cancelled_end_def)
  have c: "tcode (threads six_failures_end ! 0) = Done (Ret_Conn ?w)"
    "tcode (threads dial_cancelled_end ! 0) = Done (Ret_Err (CtxErr Canceled))"
    by (simp_all add: six_failures_end_def dial_cancelled_end_def)
  have d: "tcall (threads six_failures_end ! 0) = Call_Accept"
    "tcall (threads dial_cancelled_end ! 0) = Call_DialContext ''serial'' ''host''"
    "fails (tlog (threads six_failures_end ! 0)) = 6"
    "fails (tlog (threads dial_cancelled_end ! 0)) = 1"
    by (simp_all add: six_failures_end_def dial_cancelled_end_def)
  note e = terminal_outcomes [OF a(1) six_failures_run b(1) c(1)]
  note f = terminal_outcomes [OF a(2) dial_cancelled_run b(2) c(2)]
  from e d(1) have g: "\<exists>w. tcode (threads six_failures_end ! 0) = Done (Ret_Conn w)"
    using c(1) by simp
  from f d(2) have h: "\<forall>e. Ret_Err (CtxErr Canceled) \<noteq> Ret_Err (OpenErr e)"
    by simp
  from a b c(2) d g h six_failures_run dial_cancelled_run show ?thesis
    by (intro conjI)
qed

subsection \<open>One slot, and waiting for it\<close>





















text \<open>
  The slot is one field, but two calls that both find it empty both go on to open: each
  stores a channel of its own and each returns a connection, the second store overwriting
  the first. The statement above is about the slot, not about the number of open
  connections.
\<close>

lemma two_openers_run:
  "run two_openers (NewReopenListener ''tty'') = Inr
     \<lparr>shared = \<lparr>addr = ''tty'', closed = False, closedCh = Some 1, made = 2, chclosed = {}\<rparr>,
      threads =
        [\<lparr>tcall = Call_Accept,
          tcode = Done (Ret_Conn \<lparr>rwc = 1, local = ''tty'', remote = ''peer'',
                                  onClose = Some Release\<rparr>),
          tctx = None, tlog = [Ev_open_ok 1]\<rparr>,
         \<lparr>tcall = Call_Accept,
          tcode = Done (Ret_Conn \<lparr>rwc = 2, local = ''tty'', remote = ''peer'',
                                  onClose = Some Release\<rparr>),
          tctx = None, tlog = [Ev_open_ok 2]\<rparr>]\<rparr>"
  by (simp add: two_openers_def NewReopenListener_def NewGate_def moved_def advance_def
      install_def make_chan_def)

subsection \<open>Calls on a closed gate\<close>








lemma moved_moved [simp]:
  "t < length (threads s) \<Longrightarrow> moved t c [] (moved t c' [] s) = moved t c [] s"
  by (simp add: moved_def advance_def)











text \<open>
  A call can be blocked on a channel that the slot no longer holds: two calls find the
  slot empty and both open; the first stores channel 0, a third call observes it and
  waits, and the second stores channel 1 over it. \<^verbatim>\<open>Close()\<close> closes channel 1 only, and
  the third call is not woken: it has no step.
\<close>

lemma stale_waiter_not_woken:
  "run stale_waiter (NewReopenListener ''tty'') = Inr stale_waiter_end \<and>
   step (Step 2 Tau) stale_waiter_end = Inl Blocked"
  by (simp add: stale_waiter_def stale_waiter_end_def conn1_def
      NewReopenListener_def NewGate_def moved_def advance_def install_def make_chan_def
      close_chan_def)

lemma stale_dial_waiter_not_woken:
  "run stale_dial_waiter (NewReopenDialer ''tty'') = Inr stale_dial_waiter_end \<and>
   step (Step 2 Pick_ch) stale_dial_waiter_end = Inl Blocked \<and>
   step (Step 2 Pick_ctx) stale_dial_waiter_end = Inl Blocked"
  by (simp add: stale_dial_waiter_def stale_dial_waiter_end_def
      NewReopenDialer_def NewGate_def moved_def advance_def install_def make_chan_def
      close_chan_def)

subsection \<open>Cancelling a waiting dialer\<close>

text \<open>
  Claim C6. A \<^verbatim>\<open>DialContext\<close> call waits for the slot \<open>ch\<close> of a connection that is
  still open (neither case of its \<^verbatim>\<open>select\<close> is ready). When its context is cancelled
  it returns the error of the context; the gate (closed flag, slot, channels), its own log
  and every other thread are as before. A later call with a context that is not done waits
  for the same slot, and once the wrapper of the previous connection has been closed it
  opens a stream and returns the wrapper of it.
\<close>

theorem cancelled_waiter_leaves_gate:
  assumes "thread_at s t (Call_DialContext n a) (In_Dial (D_wait ch))"
    and "tctx (threads s ! t) = None"
    and "closedCh (shared s) = Some ch" and "ch \<notin> chclosed (shared s)"
    and "\<not> closed (shared s)"
    and "onClose w = Some Release"
  shows "step (Step t Pick_ch) s = Inl Blocked \<and>
         step (Step t Pick_ctx) s = Inl Blocked \<and>
         (\<exists>s1. run [Cancel t x, Step t Pick_ctx] s = Inr s1 \<and>
            shared s1 = shared s \<and>
            thread_at s1 t (Call_DialContext n a) (Done (Ret_Err (CtxErr x))) \<and>
            tlog (threads s1 ! t) = tlog (threads s ! t) \<and>
            length (threads s1) = length (threads s) \<and>
            (\<forall>u. u \<noteq> t \<longrightarrow> threads s1 ! u = threads s ! u) \<and>
            (\<exists>s2. run [Spawn (Call_DialContext n' a') None,
                        Step (length (threads s)) Tau, Step (length (threads s)) Tau,
                        Spawn (Call_ConnClose w) None,
                        Step (Suc (length (threads s))) Tau,
                        Step (Suc (length (threads s))) (Close_ret r),
                        Step (length (threads s)) Pick_ch, Step (length (threads s)) Tau,
                        Step (length (threads s)) Tau,
                        Step (length (threads s)) (Open_ok c), Step (length (threads s)) Tau] s1
                     = Inr s2 \<and>
                   thread_at s2 (length (threads s)) (Call_DialContext n' a')
                     (Done (Ret_Conn \<lparr>rwc = c, local = addr (shared s), remote = a',
                                       onClose = Some Release\<rparr>))))"
  using assms
  by (simp add: thread_at_def moved_def advance_def cancel_def nth_append install_def
       make_chan_def run_onClose_def close_chan_def)

theorem cancelled_waiter_leaves_gate_witness:
  "thread_at dialer_waiting 1 (Call_DialContext ''serial'' ''host'') (In_Dial (D_wait 0)) \<and>
   tctx (threads dialer_waiting ! 1) = None \<and>
   closedCh (shared dialer_waiting) = Some 0 \<and> 0 \<notin> chclosed (shared dialer_waiting) \<and>
   \<not> closed (shared dialer_waiting) \<and>
   step (Step 1 Pick_ch) dialer_waiting = Inl Blocked \<and>
   step (Step 1 Pick_ctx) dialer_waiting = Inl Blocked \<and>
   (\<exists>s1. run [Cancel 1 Canceled, Step 1 Pick_ctx] dialer_waiting = Inr s1 \<and>
      shared s1 = shared dialer_waiting \<and>
      thread_at s1 1 (Call_DialContext ''serial'' ''host'') (Done (Ret_Err (CtxErr Canceled))) \<and>
      tlog (threads s1 ! 1) = tlog (threads dialer_waiting ! 1) \<and>
      length (threads s1) = 2 \<and>
      (\<forall>u. u \<noteq> 1 \<longrightarrow> threads s1 ! u = threads dialer_waiting ! u) \<and>
      (\<exists>s2. run [Spawn (Call_DialContext ''serial'' ''other'') None, Step 2 Tau, Step 2 Tau,
                  Spawn (Call_ConnClose \<lparr>rwc = 1, local = ''tty'', remote = ''host'',
                                          onClose = Some Release\<rparr>) None,
                  Step (Suc 2) Tau, Step (Suc 2) (Close_ret None),
                  Step 2 Pick_ch, Step 2 Tau, Step 2 Tau, Step 2 (Open_ok 2), Step 2 Tau] s1
               = Inr s2 \<and>
             thread_at s2 2 (Call_DialContext ''serial'' ''other'')
               (Done (Ret_Conn \<lparr>rwc = 2, local = ''tty'', remote = ''other'',
                                 onClose = Some Release\<rparr>))))"
proof -
  let ?w = "\<lparr>rwc = 1, local = ''tty'', remote = ''host'', onClose = Some Release\<rparr>"
  have a: "thread_at dialer_waiting 1 (Call_DialContext ''serial'' ''host'') (In_Dial (D_wait 0))"
    by (simp add: dialer_waiting_def thread_at_def)
  have b: "tctx (threads dialer_waiting ! 1) = None"
    by (simp add: dialer_waiting_def)
  have c: "closedCh (shared dialer_waiting) = Some 0"
    by (simp add: dialer_waiting_def)
  have d: "0 \<notin> chclosed (shared dialer_waiting)"
    by (simp add: dialer_waiting_def)
  have e: "\<not> closed (shared dialer_waiting)"
    by (simp add: dialer_waiting_def)
  have f: "onClose ?w = Some Release"
    by simp
  have g: "length (threads dialer_waiting) = 2" "addr (shared dialer_waiting) = ''tty''"
    by (simp_all add: dialer_waiting_def)
  note inst = cancelled_waiter_leaves_gate [OF a b c d e f, where x = Canceled
      and n' = "''serial''" and a' = "''other''" and r = None and c = 2, unfolded g]
  note h = inst [THEN conjunct1] inst [THEN conjunct2, THEN conjunct1]
    inst [THEN conjunct2, THEN conjunct2]
  from a b c d e h show ?thesis
    by (intro conjI)
qed

subsection \<open>Closing a wrapper twice, and after the gate\<close>

text \<open>
  Claim C3, evaluated on the code. \<^verbatim>\<open>onClose\<close> closes whatever channel the gate's slot
  holds at the time, not the channel made for its own wrapper. A listener accepts a first
  connection (stream 1, channel 0), the connection is closed, a second connection is
  accepted (stream 2, channel 1), and the first wrapper is closed again: this second
  \<^verbatim>\<open>Close\<close> closes channel 1 and empties the slot while the second connection is open, and a
  third \<^verbatim>\<open>Accept\<close> returns a third connection (stream 3) at once.
\<close>

theorem second_Close_releases_later_slot:
  "run close_twice (NewReopenListener ''tty'') = Inr close_twice_end"
  by (simp add: close_twice_def close_twice_end_def conn1_def NewReopenListener_def NewGate_def
      moved_def advance_def install_def make_chan_def run_onClose_def close_chan_def
      insert_commute)

text \<open>
  After \<^verbatim>\<open>Close()\<close> of the gate the slot still holds the channel that \<^verbatim>\<open>Close()\<close> has
  closed; the first \<^verbatim>\<open>Close\<close> of the open wrapper then closes it again and panics, before
  the stream is closed.
\<close>

lemma Close_after_gate_Close_panics:
  "run close_after_gate_Close (NewReopenListener ''tty'') = Inl Panic"
  by (simp add: close_after_gate_Close_def conn1_def NewReopenListener_def NewGate_def
      moved_def advance_def install_def make_chan_def run_onClose_def close_chan_def)

end
